theory Spec2Isabelle
  imports Complex_Main "HOL-Library.Multiset"
begin

section \<open>Text normalisation (preprocess.py)\<close>

text \<open>
  A Python \<open>str\<close> is modelled as a \<^typ>\<open>string\<close> in which every \<^typ>\<open>char\<close> stands for one
  code point below 256. The argument of \<open>clean_text\<close> is an arbitrary Python object: the
  function is applied to a pandas column in which missing reviews are NaN.
\<close>

datatype py_value = PyStr string | PyNone | PyNaN | PyInt int | PyBool bool

text \<open>
  \<open>str.lower()\<close> on code points below 256: A-Z and the Latin-1 capitals \<open>0xC0..0xDE\<close>
  (without the multiplication sign \<open>0xD7\<close>) move up by 32, everything else is unchanged.
\<close>

definition lower_char :: "char \<Rightarrow> char" where
  "lower_char c =
     (let n = (of_char c :: nat)
      in if (65 \<le> n \<and> n \<le> 90) \<or> (192 \<le> n \<and> n \<le> 222 \<and> n \<noteq> 215)
         then char_of (n + 32) else c)"

definition py_lower :: "string \<Rightarrow> string" where
  "py_lower text = map lower_char text"

text \<open>
  The class \<open>\s\<close> of a \<open>str\<close> pattern and the separators of \<open>str.split()\<close> and
  \<open>str.strip()\<close> are the same characters: below 256 these are \<open>0x09..0x0D\<close>,
  \<open>0x1C..0x20\<close>, \<open>0x85\<close> and \<open>0xA0\<close>.
\<close>

definition is_space :: "char \<Rightarrow> bool" where
  "is_space c =
     (let n = (of_char c :: nat)
      in (9 \<le> n \<and> n \<le> 13) \<or> (28 \<le> n \<and> n \<le> 32) \<or> n = 133 \<or> n = 160)"

definition is_az :: "char \<Rightarrow> bool" where
  "is_az c = (let n = (of_char c :: nat) in 97 \<le> n \<and> n \<le> 122)"

text \<open>\<open>re.sub(r'[^a-z\s]', '', text)\<close>: every character outside the class is deleted.\<close>

definition re_sub_non_az_space :: "string \<Rightarrow> string" where
  "re_sub_non_az_space text = filter (\<lambda>c. is_az c \<or> is_space c) text"

text \<open>
  \<open>text.split()\<close> without arguments: the maximal runs of non-whitespace characters, in
  order; \<open>cur\<close> is the run being read.
\<close>

fun split_from :: "string \<Rightarrow> string \<Rightarrow> string list" where
  "split_from cur [] = (if cur = [] then [] else [cur])"
| "split_from cur (c # cs) =
     (if is_space c
      then (if cur = [] then split_from [] cs else cur # split_from [] cs)
      else split_from (cur @ [c]) cs)"

definition py_split :: "string \<Rightarrow> string list" where
  "py_split text = split_from [] text"

text \<open>\<open>sep.join(words)\<close>.\<close>

fun py_join :: "string \<Rightarrow> string list \<Rightarrow> string" where
  "py_join sep [] = []"
| "py_join sep [w] = w"
| "py_join sep (w # v # ws) = w @ sep @ py_join sep (v # ws)"

text \<open>\<open>s.strip()\<close> without arguments.\<close>

definition py_strip :: "string \<Rightarrow> string" where
  "py_strip s = rev (dropWhile is_space (rev (dropWhile is_space s)))"

text \<open>
  The loop of \<open>clean_text\<close> over \<open>words\<close>, appending to \<open>cleaned_words\<close>. The stopword set
  \<open>stop_words\<close> and the lemmatizer are the NLTK objects the module creates when it is
  imported; they are parameters here.
\<close>

fun clean_loop :: "string set \<Rightarrow> (string \<Rightarrow> string) \<Rightarrow> string list \<Rightarrow> string list \<Rightarrow> string list" where
  "clean_loop stop_words lemmatize [] cleaned_words = cleaned_words"
| "clean_loop stop_words lemmatize (word # words) cleaned_words =
     (if word \<notin> stop_words
      then clean_loop stop_words lemmatize words (cleaned_words @ [lemmatize word])
      else clean_loop stop_words lemmatize words cleaned_words)"

text \<open>\<open>isinstance(text, str)\<close>, and the characters of a \<open>str\<close> object.\<close>

fun isinstance_str :: "py_value \<Rightarrow> bool" where
  "isinstance_str (PyStr s) = True"
| "isinstance_str v = False"

fun str_of :: "py_value \<Rightarrow> string" where
  "str_of (PyStr s) = s"
| "str_of v = []"

definition clean_text :: "string set \<Rightarrow> (string \<Rightarrow> string) \<Rightarrow> py_value \<Rightarrow> string" where
  "clean_text stop_words lemmatize text =
     (if \<not> isinstance_str text \<or> str_of text = [] then []
      else (let s1 = py_lower (str_of text);
                s2 = re_sub_non_az_space s1;
                words = py_split s2;
                cleaned_words = clean_loop stop_words lemmatize words []
            in py_join '' '' cleaned_words))"

section \<open>Similarity ranking (similarity.py)\<close>

datatype py_error = IndexError

text \<open>
  \<open>cosine_similarity(user_vector, all_game_vectors)[0]\<close>: one score per row of the game
  matrix. The library kernel between the query row and one game row is the parameter
  \<open>cosine\<close>; the matrix is the list of its rows. Scores are values of any linearly
  ordered type (the library rejects NaN and infinite entries).
\<close>

definition calculate_similarity_matrix :: "('v \<Rightarrow> 'v \<Rightarrow> 's) \<Rightarrow> 'v \<Rightarrow> 'v list \<Rightarrow> 's list" where
  "calculate_similarity_matrix cosine user_vector all_game_vectors =
     map (cosine user_vector) all_game_vectors"

text \<open>The slice \<open>xs[:k]\<close>; a negative \<open>k\<close> counts from the end.\<close>

definition py_slice_to :: "'a list \<Rightarrow> int \<Rightarrow> 'a list" where
  "py_slice_to xs k =
     (if k < 0 then take (nat (int (length xs) + k)) xs else take (nat k) xs)"

text \<open>
  \<open>np.argsort(similarities)[::-1][:top_n]\<close>. \<open>np.argsort\<close> is the parameter \<open>argsort\<close>: the
  call does not select a sorting algorithm, and the default one is not stable.
\<close>

definition find_top_matches :: "('s list \<Rightarrow> nat list) \<Rightarrow> 's list \<Rightarrow> int \<Rightarrow> nat list" where
  "find_top_matches argsort similarities top_n =
     py_slice_to (rev (argsort similarities)) top_n"

text \<open>\<open>xs[i]\<close> for a non-negative index.\<close>

definition py_index :: "'a list \<Rightarrow> nat \<Rightarrow> py_error + 'a" where
  "py_index xs i = (if i < length xs then Inr (xs ! i) else Inl IndexError)"

text \<open>\<open>[similarities[i] for i in indices]\<close>.\<close>

fun get_similarity_scores :: "'s list \<Rightarrow> nat list \<Rightarrow> py_error + 's list" where
  "get_similarity_scores similarities [] = Inr []"
| "get_similarity_scores similarities (i # indices) =
     (case py_index similarities i of
        Inl e \<Rightarrow> Inl e
      | Inr s \<Rightarrow>
          (case get_similarity_scores similarities indices of
             Inl e \<Rightarrow> Inl e
           | Inr scores \<Rightarrow> Inr (s # scores)))"

section \<open>The recommendation facade (recommend.py)\<close>

record 'v game_recommender =
  vectorizer :: "string \<Rightarrow> 'v"
  game_vectors :: "'v list"
  game_names :: "string list"
  game_ids :: "int list"

text \<open>
  The field \<open>vectorizer\<close> is the fitted vectorizer, represented by what its \<open>transform\<close>
  does to one document. The library objects the pipeline calls are collected in one
  record.
\<close>

record ('v, 's) library =
  stop_words :: "string set"
  lemmatize :: "string \<Rightarrow> string"
  cosine :: "'v \<Rightarrow> 'v \<Rightarrow> 's"
  argsort :: "'s list \<Rightarrow> nat list"

record 's recommendation =
  game_id :: int
  game_name :: string
  similarity_score :: 's
  match_percentage :: 's

definition transform_text :: "(string \<Rightarrow> 'v) \<Rightarrow> string \<Rightarrow> 'v" where
  "transform_text vec text = vec text"

text \<open>
  The loop over \<open>zip(top_indices, top_scores)\<close>, appending one dictionary per pair to
  \<open>recommendations\<close>.
\<close>

fun format_loop ::
  "'v game_recommender \<Rightarrow> (nat \<times> 's) list \<Rightarrow> 's recommendation list
     \<Rightarrow> py_error + ('s::{times,numeral}) recommendation list" where
  "format_loop self [] recommendations = Inr recommendations"
| "format_loop self ((idx, score) # rest) recommendations =
     (case py_index (game_ids self) idx of
        Inl e \<Rightarrow> Inl e
      | Inr gid \<Rightarrow>
          (case py_index (game_names self) idx of
             Inl e \<Rightarrow> Inl e
           | Inr gname \<Rightarrow>
               format_loop self rest
                 (recommendations @
                    [\<lparr>game_id = gid, game_name = gname,
                      similarity_score = score, match_percentage = score * 100\<rparr>])))"

definition recommend ::
  "('v, 's::{times,numeral}) library \<Rightarrow> 'v game_recommender \<Rightarrow> py_value \<Rightarrow> int
     \<Rightarrow> py_error + 's recommendation list" where
  "recommend lib self user_review top_n =
     (let cleaned_review = clean_text (stop_words lib) (lemmatize lib) user_review
      in if py_strip cleaned_review = [] then Inr []
         else
           (let user_vector = transform_text (vectorizer self) cleaned_review;
                similarities =
                  calculate_similarity_matrix (cosine lib) user_vector (game_vectors self);
                top_indices = find_top_matches (argsort lib) similarities top_n
            in case get_similarity_scores similarities top_indices of
                 Inl e \<Rightarrow> Inl e
               | Inr top_scores \<Rightarrow> format_loop self (zip top_indices top_scores) []))"


section \<open>Notions used to state the properties\<close>

text \<open>The cleaned query and the score array that \<open>recommend\<close> computes from it.\<close>

definition cleaned_query :: "('v, 's) library \<Rightarrow> py_value \<Rightarrow> string" where
  "cleaned_query lib user_review = clean_text (stop_words lib) (lemmatize lib) user_review"

definition query_scores :: "('v, 's) library \<Rightarrow> 'v game_recommender \<Rightarrow> py_value \<Rightarrow> 's list" where
  "query_scores lib self user_review =
     calculate_similarity_matrix (cosine lib)
       (transform_text (vectorizer self) (cleaned_query lib user_review)) (game_vectors self)"

text \<open>
  What \<open>np.argsort\<close> guarantees of its result \<open>p\<close> on the array \<open>a\<close>: a permutation of
  the positions of \<open>a\<close> that lists the entries in ascending order. Nothing is said about
  the order of equal entries.
\<close>

definition is_argsort :: "('s::linorder) list \<Rightarrow> nat list \<Rightarrow> bool" where
  "is_argsort a p \<longleftrightarrow> mset p = mset [0..<length a] \<and> sorted (map (\<lambda>i. a ! i) p)"

text \<open>The metadata lists have one entry per row of the game matrix.\<close>

definition aligned :: "'v game_recommender \<Rightarrow> bool" where
  "aligned self \<longleftrightarrow>
     length (game_ids self) = length (game_vectors self) \<and>
     length (game_names self) = length (game_vectors self)"

text \<open>The dictionary \<open>recommend\<close> builds for row \<open>i\<close> of the game matrix.\<close>

definition entry_for :: "'v game_recommender \<Rightarrow> ('s::{times,numeral}) list \<Rightarrow> nat \<Rightarrow> 's recommendation" where
  "entry_for self similarities i =
     \<lparr>game_id = game_ids self ! i, game_name = game_names self ! i,
      similarity_score = similarities ! i, match_percentage = similarities ! i * 100\<rparr>"

text \<open>What is left of a word after lowercasing and deleting everything but a-z.\<close>

definition letters_lower :: "string \<Rightarrow> string" where
  "letters_lower w = filter is_az (map lower_char w)"

text \<open>
  The normaliser as the specification words it: lowercase, keep letters and whitespace,
  split, drop stopwords, lemmatize, join with single spaces.
\<close>

definition normalizer_spec :: "string set \<Rightarrow> (string \<Rightarrow> string) \<Rightarrow> string \<Rightarrow> string" where
  "normalizer_spec stops lem s =
     py_join '' ''
       (map lem
          (filter (\<lambda>w. w \<notin> stops)
             (py_split (filter (\<lambda>c. is_az c \<or> is_space c) (map lower_char s)))))"

text \<open>
  Top-K selection as the specification words it: a stable sort by descending score (an
  index is placed behind every index whose score is at least as high, and the indices
  are placed in corpus order), truncated to \<open>K\<close> clamped to \<open>[1, corpus size]\<close>.
\<close>

fun place_desc :: "(nat \<Rightarrow> 's::linorder) \<Rightarrow> nat \<Rightarrow> nat list \<Rightarrow> nat list" where
  "place_desc f i [] = [i]"
| "place_desc f i (j # js) = (if f j < f i then i # j # js else j # place_desc f i js)"

definition top_k_spec :: "('s::linorder) list \<Rightarrow> int \<Rightarrow> nat list" where
  "top_k_spec scores k =
     take (nat (max 1 (min k (int (length scores)))))
       (foldl (\<lambda>ranked i. place_desc (\<lambda>j. scores ! j) i ranked) [] [0..<length scores])"

section \<open>Library stand-ins for running the pipeline on concrete inputs\<close>

text \<open>
  A stable ascending argsort (\<open>kind='stable'\<close>; also what the default scalar sort does on
  short arrays, which it sorts by insertion).
\<close>

definition argsort_stable :: "('s::linorder) list \<Rightarrow> nat list" where
  "argsort_stable a = sort_key (\<lambda>i. a ! i) [0..<length a]"

text \<open>
  Dense rows over the reals: Euclidean normalisation that leaves a zero row alone, the
  cosine kernel as the dot product of the normalised rows, and a unigram vectorizer
  (term count times idf weight, normalised; tokens have at least two characters).
\<close>

definition l2_normalize :: "real list \<Rightarrow> real list" where
  "l2_normalize v =
     (let n = sqrt (sum_list (map (\<lambda>x. x * x) v))
      in if n = 0 then v else map (\<lambda>x. x / n) v)"

definition cosine_rows :: "real list \<Rightarrow> real list \<Rightarrow> real" where
  "cosine_rows u v = sum_list (map2 (*) (l2_normalize u) (l2_normalize v))"

definition term_counts :: "string list \<Rightarrow> string \<Rightarrow> nat list" where
  "term_counts vocabulary text =
     map (count_list (filter (\<lambda>w. 2 \<le> length w) (py_split text))) vocabulary"

definition tfidf_row :: "string list \<Rightarrow> real list \<Rightarrow> string \<Rightarrow> real list" where
  "tfidf_row vocabulary idf text =
     l2_normalize (map2 (\<lambda>c w. real c * w) (term_counts vocabulary text) idf)"

definition demo_lib :: "(real list, real) library" where
  "demo_lib =
     \<lparr>stop_words = {''the'', ''and'', ''a'', ''i'', ''is'', ''of''},
      lemmatize = (\<lambda>w. if w = ''shooters'' then ''shooter'' else w),
      cosine = cosine_rows,
      argsort = argsort_stable\<rparr>"

definition demo_games :: "real list game_recommender" where
  "demo_games =
     \<lparr>vectorizer = tfidf_row [''shooter'', ''puzzle''] [1, 1],
      game_vectors = [[1, 0], [0, 1], [3 / 5, 4 / 5]],
      game_names = [''Doom'', ''Tetris'', ''Portal''],
      game_ids = [10, 20, 30]\<rparr>"

section \<open>Auxiliary facts\<close>

subsection \<open>Strings\<close>

lemma clean_loop_eq:
  "clean_loop stops lem ws acc = acc @ map lem (filter (\<lambda>w. w \<notin> stops) ws)"
  by (induction ws arbitrary: acc) simp_all

lemma is_space_lower_char: "is_space (lower_char c) = is_space c"
  by (auto simp: is_space_def lower_char_def Let_def)

lemma concat_split_from:
  "concat (split_from cur s) = cur @ filter (\<lambda>c. \<not> is_space c) s"
  by (induction s arbitrary: cur) simp_all

lemma split_from_tokens:
  "w \<in> set (split_from cur s) \<Longrightarrow> \<forall>c \<in> set cur. \<not> is_space c \<Longrightarrow>
   w \<noteq> [] \<and> (\<forall>c \<in> set w. \<not> is_space c)"
proof (induction s arbitrary: cur)
  case Nil
  then show ?case by (cases "cur = []") simp_all
next
  case (Cons c s)
  show ?case
  proof (cases "is_space c")
    case True
    show ?thesis
    proof (cases "cur = []")
      case e: True
      with True Cons.prems(1) have "w \<in> set (split_from [] s)" by simp
      then show ?thesis using Cons.IH[of "[]"] by simp
    next
      case ne: False
      with True Cons.prems(1) have "w = cur \<or> w \<in> set (split_from [] s)" by simp
      then show ?thesis using Cons.IH[of "[]"] ne Cons.prems(2) by auto
    qed
  next
    case False
    with Cons.prems(1) have "w \<in> set (split_from (cur @ [c]) s)" by simp
    moreover have "\<forall>x \<in> set (cur @ [c]). \<not> is_space x" using False Cons.prems(2) by simp
    ultimately show ?thesis using Cons.IH[of "cur @ [c]"] by blast
  qed
qed

lemma concat_py_split: "concat (py_split s) = filter (\<lambda>c. \<not> is_space c) s"
  by (simp add: py_split_def concat_split_from)

lemma py_split_tokens:
  "w \<in> set (py_split s) \<Longrightarrow> w \<noteq> [] \<and> (\<forall>c \<in> set w. \<not> is_space c)"
  unfolding py_split_def using split_from_tokens[of w "[]" s] by simp

lemma split_from_normalised:
  "split_from (letters_lower cur) (filter (\<lambda>c. is_az c \<or> is_space c) (map lower_char s))
     = filter (\<lambda>w. w \<noteq> []) (map letters_lower (split_from cur s))"
proof (induction s arbitrary: cur)
  case Nil
  then show ?case by (simp add: letters_lower_def)
next
  case (Cons c s)
  show ?case
  proof (cases "is_space c")
    case True
    then have "is_space (lower_char c)" by (simp add: is_space_lower_char)
    with True Cons.IH[of "[]"] show ?thesis
      by (simp add: letters_lower_def)
  next
    case False
    then have ns: "\<not> is_space (lower_char c)" by (simp add: is_space_lower_char)
    show ?thesis
    proof (cases "is_az (lower_char c)")
      case True
      with False ns Cons.IH[of "cur @ [c]"] show ?thesis
        by (simp add: letters_lower_def)
    next
      case az: False
      with False ns Cons.IH[of "cur @ [c]"] show ?thesis
        by (simp add: letters_lower_def)
    qed
  qed
qed

lemma py_split_normalised:
  "py_split (re_sub_non_az_space (py_lower s))
     = filter (\<lambda>w. w \<noteq> []) (map letters_lower (py_split s))"
  using split_from_normalised[of "[]" s]
  by (simp add: py_split_def re_sub_non_az_space_def py_lower_def letters_lower_def)

subsection \<open>Ranking\<close>

lemma get_similarity_scores_in_range:
  "\<forall>i \<in> set idxs. i < length sims \<Longrightarrow>
   get_similarity_scores sims idxs = Inr (map (\<lambda>i. sims ! i) idxs)"
  by (induction idxs) (simp_all add: py_index_def)

lemma is_argsort_set: "is_argsort a p \<Longrightarrow> set p = {0..<length a}"
  unfolding is_argsort_def by (metis mset_eq_setD set_upt)

lemma is_argsort_distinct: "is_argsort a p \<Longrightarrow> distinct p"
  unfolding is_argsort_def by (metis distinct_upt mset_eq_imp_distinct_iff)

lemma is_argsort_length: "is_argsort a p \<Longrightarrow> length p = length a"
  unfolding is_argsort_def by (metis mset_eq_length length_upt diff_zero)

lemma is_argsort_stable: "is_argsort a (argsort_stable a)"
  by (simp add: is_argsort_def argsort_stable_def)

lemma set_py_slice_to: "set (py_slice_to xs k) \<subseteq> set xs"
  by (auto simp: py_slice_to_def dest: in_set_takeD)

lemma sorted_wrt_py_slice_to: "sorted_wrt R xs \<Longrightarrow> sorted_wrt R (py_slice_to xs k)"
  by (simp add: py_slice_to_def)

lemma distinct_py_slice_to: "distinct xs \<Longrightarrow> distinct (py_slice_to xs k)"
  by (simp add: py_slice_to_def)

lemma length_py_slice_to: "0 \<le> k \<Longrightarrow> length (py_slice_to xs k) = min (nat k) (length xs)"
  by (simp add: py_slice_to_def)

lemma py_slice_to_prefix: "\<exists>m. py_slice_to xs k = take m xs"
  by (auto simp: py_slice_to_def)


lemma find_top_matches_in_range:
  "is_argsort a (asort a) \<Longrightarrow> i \<in> set (find_top_matches asort a k) \<Longrightarrow> i < length a"
  using set_py_slice_to[of "rev (asort a)" k] is_argsort_set[of a "asort a"]
  by (auto simp: find_top_matches_def)

lemma find_top_matches_descending:
  assumes "is_argsort a (asort a)"
  shows "sorted_wrt (\<lambda>i j. a ! j \<le> a ! i) (find_top_matches asort a k)"
proof -
  have "sorted_wrt (\<lambda>i j. a ! i \<le> a ! j) (asort a)"
    using assms by (simp add: is_argsort_def sorted_map)
  then have "sorted_wrt (\<lambda>i j. a ! j \<le> a ! i) (rev (asort a))"
    by (simp add: sorted_wrt_rev)
  then show ?thesis
    unfolding find_top_matches_def by (rule sorted_wrt_py_slice_to)
qed

lemma find_top_matches_best:
  assumes "is_argsort a (asort a)" and "i < length a"
    and "i \<notin> set (find_top_matches asort a k)" and "j \<in> set (find_top_matches asort a k)"
  shows "a ! i \<le> a ! j"
proof -
  obtain m where m: "find_top_matches asort a k = take m (rev (asort a))"
    unfolding find_top_matches_def using py_slice_to_prefix by blast
  have "i \<in> set (rev (asort a))"
    using assms(1,2) is_argsort_set[of a "asort a"] by simp
  then have "i \<in> set (take m (rev (asort a))) \<or> i \<in> set (drop m (rev (asort a)))"
    by (metis Un_iff append_take_drop_id set_append)
  with assms(3) m have i: "i \<in> set (drop m (rev (asort a)))" by simp
  have "sorted_wrt (\<lambda>i j. a ! i \<le> a ! j) (asort a)"
    using assms(1) by (simp add: is_argsort_def sorted_map)
  then have "sorted_wrt (\<lambda>i j. a ! j \<le> a ! i) (take m (rev (asort a)) @ drop m (rev (asort a)))"
    by (simp add: sorted_wrt_rev)
  then show ?thesis
    using i assms(4) m unfolding sorted_wrt_append by auto
qed

text \<open>
  A stable ascending sort of positions orders them by score and, among equal scores,
  by position.
\<close>

lemma insort_key_lex:
  fixes f :: "nat \<Rightarrow> 's::linorder"
  assumes "sorted_wrt (\<lambda>i j. f i < f j \<or> (f i = f j \<and> i < j)) ys"
    and "\<forall>y \<in> set ys. x < y"
  shows "sorted_wrt (\<lambda>i j. f i < f j \<or> (f i = f j \<and> i < j)) (insort_key f x ys)"
  using assms
proof (induction ys)
  case Nil
  then show ?case by simp
next
  case (Cons y ys)
  show ?case
  proof (cases "f x \<le> f y")
    case True
    have "\<forall>z \<in> set (y # ys). f x < f z \<or> (f x = f z \<and> x < z)"
    proof
      fix z assume z: "z \<in> set (y # ys)"
      then have "f y \<le> f z" using Cons.prems(1) by auto
      with True have "f x \<le> f z" by simp
      moreover have "x < z" using z Cons.prems(2) by auto
      ultimately show "f x < f z \<or> (f x = f z \<and> x < z)" by auto
    qed
    with True Cons.prems(1) show ?thesis by simp
  next
    case False
    then have "f y < f x" by simp
    moreover have "sorted_wrt (\<lambda>i j. f i < f j \<or> (f i = f j \<and> i < j)) (insort_key f x ys)"
      using Cons by simp
    ultimately show ?thesis
      using False Cons.prems(1) by (auto simp: set_insort_key)
  qed
qed

lemma sort_key_lex:
  fixes f :: "nat \<Rightarrow> 's::linorder"
  assumes "sorted_wrt (<) xs"
  shows "sorted_wrt (\<lambda>i j. f i < f j \<or> (f i = f j \<and> i < j)) (sort_key f xs)"
  using assms
proof (induction xs)
  case Nil
  then show ?case by simp
next
  case (Cons x xs)
  then have "sorted_wrt (\<lambda>i j. f i < f j \<or> (f i = f j \<and> i < j)) (sort_key f xs)"
    by simp
  moreover have "\<forall>y \<in> set (sort_key f xs). x < y"
    using Cons.prems by simp
  ultimately show ?case
    using insort_key_lex[of f "sort_key f xs" x] by simp
qed

lemma argsort_stable_lex:
  "sorted_wrt (\<lambda>i j. a ! i < a ! j \<or> (a ! i = a ! j \<and> i < j)) (argsort_stable a)"
  unfolding argsort_stable_def
  by (rule sort_key_lex) simp

lemma find_top_matches_stable_ties:
  "sorted_wrt (\<lambda>i j. a ! j < a ! i \<or> (a ! i = a ! j \<and> j < i))
     (find_top_matches argsort_stable a k)"
proof -
  have "sorted_wrt (\<lambda>i j. a ! j < a ! i \<or> (a ! j = a ! i \<and> j < i)) (rev (argsort_stable a))"
    using argsort_stable_lex[of a] by (simp add: sorted_wrt_rev)
  then have "sorted_wrt (\<lambda>i j. a ! j < a ! i \<or> (a ! i = a ! j \<and> j < i)) (rev (argsort_stable a))"
    by (rule sorted_wrt_mono_rel[rotated]) auto
  then show ?thesis
    unfolding find_top_matches_def by (rule sorted_wrt_py_slice_to)
qed

subsection \<open>The facade\<close>

lemma format_loop_in_range:
  "\<forall>i \<in> set idxs. i < length (game_ids self) \<and> i < length (game_names self) \<Longrightarrow>
   format_loop self (zip idxs (map (\<lambda>i. sims ! i) idxs)) acc
     = Inr (acc @ map (entry_for self sims) idxs)"
  by (induction idxs arbitrary: acc) (simp_all add: py_index_def entry_for_def)

lemma format_loop_percentage:
  "format_loop self ps acc = Inr recs \<Longrightarrow>
   \<forall>r \<in> set acc. match_percentage r = similarity_score r * 100 \<Longrightarrow>
   \<forall>r \<in> set recs. match_percentage r = similarity_score r * 100"
proof (induction self ps acc rule: format_loop.induct)
  case (1 self recommendations)
  then show ?case by simp
next
  case (2 self idx score rest recommendations)
  then show ?case
    by (auto split: sum.splits)
qed

lemma length_query_scores: "length (query_scores lib self q) = length (game_vectors self)"
  by (simp add: query_scores_def calculate_similarity_matrix_def)

lemma recommend_entries:
  assumes "py_strip (cleaned_query lib q) \<noteq> []"
    and "is_argsort (query_scores lib self q) (argsort lib (query_scores lib self q))"
    and "aligned self"
  shows "recommend lib self q k =
           Inr (map (entry_for self (query_scores lib self q))
                  (find_top_matches (argsort lib) (query_scores lib self q) k))"
proof -
  let ?sims = "query_scores lib self q"
  let ?top = "find_top_matches (argsort lib) ?sims k"
  have rng: "\<forall>i \<in> set ?top. i < length ?sims"
    using assms(2) find_top_matches_in_range by blast
  have sc: "get_similarity_scores ?sims ?top = Inr (map (\<lambda>i. ?sims ! i) ?top)"
    using rng by (rule get_similarity_scores_in_range)
  have "\<forall>i \<in> set ?top. i < length (game_ids self) \<and> i < length (game_names self)"
    using rng assms(3) by (simp add: aligned_def length_query_scores)
  then have fm: "format_loop self (zip ?top (map (\<lambda>i. ?sims ! i) ?top)) []
       = Inr ([] @ map (entry_for self ?sims) ?top)"
    by (rule format_loop_in_range)
  show ?thesis
    using assms(1) sc fm
    by (simp add: recommend_def cleaned_query_def query_scores_def Let_def)
qed

subsection \<open>The example corpus\<close>

lemma demo_aligned: "aligned demo_games"
  by (simp add: aligned_def demo_games_def)

lemma demo_argsort: "is_argsort a (argsort demo_lib a)"
  by (simp add: demo_lib_def is_argsort_stable)

lemma demo_cleaned_shooter: "cleaned_query demo_lib (PyStr ''The shooters!'') = ''shooter''"
  unfolding cleaned_query_def demo_lib_def library.simps by code_simp


lemma demo_cleaned_stopwords: "cleaned_query demo_lib (PyStr ''The, and!!'') = []"
  unfolding cleaned_query_def demo_lib_def library.simps by code_simp

lemma demo_counts_shooter: "term_counts [''shooter'', ''puzzle''] ''shooter'' = [1, 0]"
  by code_simp


lemma demo_vector_shooter:
  "transform_text (vectorizer demo_games) ''shooter'' = [1, 0]"
  by (simp add: transform_text_def demo_games_def tfidf_row_def demo_counts_shooter
      l2_normalize_def)


lemma demo_scores_shooter:
  "query_scores demo_lib demo_games (PyStr ''The shooters!'') = [1, 0, 3 / 5]"
  unfolding query_scores_def demo_cleaned_shooter demo_vector_shooter
  by (simp add: demo_lib_def demo_games_def calculate_similarity_matrix_def
      cosine_rows_def l2_normalize_def)


lemma demo_nonblank_shooter: "py_strip (cleaned_query demo_lib (PyStr ''The shooters!'')) \<noteq> []"
  unfolding demo_cleaned_shooter by (simp add: py_strip_def is_space_def)


lemma demo_top_shooter:
  "find_top_matches (argsort demo_lib) [1, 0, 3 / 5 :: real] 2 = [0, 2]"
  by (simp add: find_top_matches_def demo_lib_def argsort_stable_def py_slice_to_def upt_rec)


lemma demo_run_shooter:
  "recommend demo_lib demo_games (PyStr ''The shooters!'') 2 =
     Inr [\<lparr>game_id = 10, game_name = ''Doom'', similarity_score = 1, match_percentage = 100\<rparr>,
          \<lparr>game_id = 30, game_name = ''Portal'', similarity_score = 3 / 5,
            match_percentage = 60\<rparr>]"
  unfolding recommend_entries[OF demo_nonblank_shooter demo_argsort demo_aligned]
    demo_scores_shooter demo_top_shooter
  by (simp add: entry_for_def demo_games_def)


section \<open>Properties of the text normaliser\<close>

text \<open>
  C7. For an input that is not a string, or is the empty string, \<open>clean_text\<close> returns the
  empty string; the guard returns before any library object is touched, so nothing is
  raised.
\<close>

theorem clean_text_non_string_or_empty:
  "\<not> isinstance_str text \<or> text = PyStr [] \<Longrightarrow> clean_text stops lem text = []"
  by (auto simp: clean_text_def)

theorem clean_text_non_string_or_empty_witness:
  "clean_text {''the''} (\<lambda>w. w) PyNaN = [] \<and> clean_text {''the''} (\<lambda>w. w) (PyStr []) = []"
  using clean_text_non_string_or_empty[of PyNaN "{''the''}" "\<lambda>w. w"]
    clean_text_non_string_or_empty[of "PyStr []" "{''the''}" "\<lambda>w. w"]
  by simp

text \<open>
  C9. On every string, \<open>clean_text\<close> computes the pipeline the specification describes:
  lowercase, delete every character outside a-z and whitespace, split on whitespace,
  drop the stopwords, lemmatize each remaining word, and join them in their order with
  single spaces.
\<close>

theorem clean_text_refines_normalizer_spec:
  "clean_text stops lem (PyStr s) = normalizer_spec stops lem s"
  by (simp add: clean_text_def normalizer_spec_def clean_loop_eq Let_def
      py_lower_def re_sub_non_az_space_def py_split_def)

theorem clean_text_refines_normalizer_spec_witness:
  "clean_text {''the'', ''is''} (\<lambda>w. if w = ''games'' then ''game'' else w)
     (PyStr ''The 2 GAMES, is  fun!'') = ''game fun''"
proof -
  have "normalizer_spec {''the'', ''is''} (\<lambda>w. if w = ''games'' then ''game'' else w)
          ''The 2 GAMES, is  fun!'' = ''game fun''"
    by code_simp
  then show ?thesis
    using clean_text_refines_normalizer_spec[of "{''the'', ''is''}"
        "\<lambda>w. if w = ''games'' then ''game'' else w" "''The 2 GAMES, is  fun!''"]
    by simp
qed

text \<open>
  C8, as stated, fails: punctuation is deleted, not replaced by a space, so two
  stopwords joined by a comma fuse into one word that is not a stopword.
\<close>

theorem clean_text_stopwords_punctuation_counterexample:
  "clean_text {''the'', ''and''} (\<lambda>w. w) (PyStr ''the,and'') = ''theand'' \<and>
   clean_text {''the'', ''and''} (\<lambda>w. w) (PyStr ''the,and'') \<noteq> []"
  by code_simp

text \<open>
  C8, amended. If every whitespace-separated word of \<open>s\<close>, once lowercased and rid of
  every character outside a-z, is empty or a stopword, then \<open>clean_text\<close> returns the
  empty string.
\<close>

theorem clean_text_stopwords_only:
  assumes "\<forall>w \<in> set (py_split s). letters_lower w = [] \<or> letters_lower w \<in> stops"
  shows "clean_text stops lem (PyStr s) = []"
proof -
  have "filter (\<lambda>w. w \<notin> stops)
          (filter (\<lambda>w. w \<noteq> []) (map letters_lower (py_split s))) = []"
    using assms by (auto simp: filter_empty_conv)
  then show ?thesis
    using py_split_normalised[of s]
    by (simp add: clean_text_def clean_loop_eq Let_def)
qed

theorem clean_text_stopwords_only_witness:
  "map letters_lower (py_split ''The , AND... the!'') = [''the'', [], ''and'', ''the''] \<and>
   clean_text {''the'', ''and''} (\<lambda>w. w) (PyStr ''The , AND... the!'') = []"
proof -
  have toks: "map letters_lower (py_split ''The , AND... the!'') = [''the'', [], ''and'', ''the'']"
    by code_simp
  have h: "\<forall>w \<in> set (py_split ''The , AND... the!''). letters_lower w = [] \<or>
       letters_lower w \<in> {''the'', ''and''}"
    by code_simp
  show ?thesis
    using toks clean_text_stopwords_only[OF h, of "\<lambda>w. w"] by simp
qed

section \<open>Properties of top-K selection\<close>

text \<open>
  C2, as stated, fails twice. With a stable ascending argsort, equal scores come out in
  reverse corpus order, because the sorted positions are reversed; and \<open>K = 0\<close> selects
  nothing, because the slice does not raise \<open>K\<close> to 1.
\<close>

theorem find_top_matches_spec_counterexample:
  "find_top_matches argsort_stable [1 / 2, 1 / 2 :: real] 2 = [1, 0] \<and>
   top_k_spec [1 / 2, 1 / 2 :: real] 2 = [0, 1] \<and>
   find_top_matches argsort_stable [1 / 2, 1 / 2 :: real] 0 = [] \<and>
   top_k_spec [1 / 2, 1 / 2 :: real] 0 = [0]"
  by (simp add: find_top_matches_def argsort_stable_def py_slice_to_def top_k_spec_def upt_rec)

text \<open>
  C2, amended. Top-K selection reverses an ascending argsort of the scores and slices
  off the first \<open>K\<close> positions. For \<open>K \<ge> 0\<close> it selects \<open>min K n\<close> distinct positions of
  the corpus (none for \<open>K = 0\<close>: \<open>K\<close> is bounded by the corpus size but not raised to 1),
  in non-increasing order of score, and no position left out scores higher than a
  selected one. Equal scores keep the reverse of the order argsort gave them: with a
  stable argsort, the reverse of corpus order.
\<close>

theorem find_top_matches_selection:
  assumes "is_argsort sims (asort sims)"
  shows "(0 \<le> k \<longrightarrow> length (find_top_matches asort sims k) = min (nat k) (length sims)) \<and>
         distinct (find_top_matches asort sims k) \<and>
         set (find_top_matches asort sims k) \<subseteq> {0..<length sims} \<and>
         sorted_wrt (\<lambda>i j. sims ! j \<le> sims ! i) (find_top_matches asort sims k) \<and>
         (\<forall>i < length sims. i \<notin> set (find_top_matches asort sims k) \<longrightarrow>
            (\<forall>j \<in> set (find_top_matches asort sims k). sims ! i \<le> sims ! j)) \<and>
         sorted_wrt (\<lambda>i j. sims ! j < sims ! i \<or> (sims ! i = sims ! j \<and> j < i))
            (find_top_matches argsort_stable sims k)"
proof -
  have len: "0 \<le> k \<longrightarrow> length (find_top_matches asort sims k) = min (nat k) (length sims)"
    using is_argsort_length[of sims "asort sims", OF assms]
    by (simp add: find_top_matches_def length_py_slice_to)
  have dist: "distinct (find_top_matches asort sims k)"
    unfolding find_top_matches_def
    using is_argsort_distinct[of sims "asort sims", OF assms] by (simp add: distinct_py_slice_to)
  have rng: "set (find_top_matches asort sims k) \<subseteq> {0..<length sims}"
    using find_top_matches_in_range[of sims asort _ k] assms by auto
  have desc: "sorted_wrt (\<lambda>i j. sims ! j \<le> sims ! i) (find_top_matches asort sims k)"
    using assms by (rule find_top_matches_descending)
  have best: "\<forall>i < length sims. i \<notin> set (find_top_matches asort sims k) \<longrightarrow>
            (\<forall>j \<in> set (find_top_matches asort sims k). sims ! i \<le> sims ! j)"
    using find_top_matches_best[of sims asort _ k, OF assms] by blast
  show ?thesis
    using len dist rng desc best find_top_matches_stable_ties[of sims k] by blast
qed

theorem find_top_matches_selection_witness:
  "is_argsort [1 / 2, 3 / 4, 1 / 2 :: real] (argsort_stable [1 / 2, 3 / 4, 1 / 2 :: real]) \<and>
   find_top_matches argsort_stable [1 / 2, 3 / 4, 1 / 2 :: real] 2 = [1, 2] \<and>
   length (find_top_matches argsort_stable [1 / 2, 3 / 4, 1 / 2 :: real] 2) = 2 \<and>
   distinct (find_top_matches argsort_stable [1 / 2, 3 / 4, 1 / 2 :: real] 2)"
proof -
  have h: "is_argsort [1 / 2, 3 / 4, 1 / 2 :: real] (argsort_stable [1 / 2, 3 / 4, 1 / 2 :: real])"
    by (simp add: is_argsort_def argsort_stable_def upt_rec)
  have v: "find_top_matches argsort_stable [1 / 2, 3 / 4, 1 / 2 :: real] 2 = [1, 2]"
    by (simp add: find_top_matches_def argsort_stable_def py_slice_to_def upt_rec)
  show ?thesis
    using h v find_top_matches_selection[of "[1 / 2, 3 / 4, 1 / 2 :: real]" argsort_stable 2, OF h]
    by simp
qed

section \<open>Properties of the facade\<close>

text \<open>
  C4. When the cleaned query is empty or whitespace only, \<open>recommend\<close> returns the empty
  list and raises nothing, whatever \<open>top_n\<close> is; in particular for the empty string.
\<close>

theorem recommend_blank_query:
  "(py_strip (cleaned_query lib user_review) = [] \<longrightarrow>
      recommend lib self user_review top_n = Inr []) \<and>
   recommend lib self (PyStr []) top_n = Inr []"
  by (simp add: recommend_def cleaned_query_def clean_text_def py_strip_def)

theorem recommend_blank_query_witness:
  "py_strip (cleaned_query demo_lib (PyStr ''The, and!!'')) = [] \<and>
   recommend demo_lib demo_games (PyStr ''The, and!!'') 5 = Inr [] \<and>
   recommend demo_lib demo_games (PyStr []) 5 = Inr []"
proof -
  have h: "py_strip (cleaned_query demo_lib (PyStr ''The, and!!'')) = []"
    unfolding demo_cleaned_stopwords by (simp add: py_strip_def)
  show ?thesis
    using h recommend_blank_query[of demo_lib "PyStr ''The, and!!''" demo_games 5] by simp
qed

text \<open>
  C5. In every record \<open>recommend\<close> returns, \<open>match_percentage\<close> is \<open>similarity_score\<close>
  times 100.
\<close>

theorem recommend_match_percentage:
  assumes "recommend lib self user_review top_n = Inr recs" and "r \<in> set recs"
  shows "match_percentage r = similarity_score r * 100"
proof (cases "py_strip (clean_text (stop_words lib) (lemmatize lib) user_review) = []")
  case True
  with assms show ?thesis by (simp add: recommend_def)
next
  case False
  with assms(1) obtain ps where "format_loop self ps [] = Inr recs"
    by (auto simp: recommend_def Let_def split: sum.splits)
  then have "\<forall>r \<in> set recs. match_percentage r = similarity_score r * 100"
    by (rule format_loop_percentage) simp
  with assms(2) show ?thesis by simp
qed

theorem recommend_match_percentage_witness:
  "recommend demo_lib demo_games (PyStr ''The shooters!'') 2 =
     Inr [\<lparr>game_id = 10, game_name = ''Doom'', similarity_score = 1, match_percentage = 100\<rparr>,
          \<lparr>game_id = 30, game_name = ''Portal'', similarity_score = 3 / 5,
            match_percentage = 60\<rparr>] \<and>
   match_percentage \<lparr>game_id = 30, game_name = ''Portal'', similarity_score = 3 / 5 :: real,
            match_percentage = 60\<rparr> =
   similarity_score \<lparr>game_id = 30, game_name = ''Portal'', similarity_score = 3 / 5 :: real,
            match_percentage = 60\<rparr> * 100"
  using demo_run_shooter
    recommend_match_percentage[OF demo_run_shooter,
      of "\<lparr>game_id = 30, game_name = ''Portal'', similarity_score = 3 / 5,
            match_percentage = 60\<rparr>"]
  by simp










end
